theory Spec2Isabelle
  imports Main
begin

section \<open>The stream object of \<^verbatim>\<open>networking/streams/stream.c\<close>\<close>

subsection \<open>Data\<close>

text \<open>
  Pointers are addresses. A \<^verbatim>\<open>void *\<close> context is a number, \<open>0\<close> being \<^verbatim>\<open>NULL\<close>.
  A callback of type \<^verbatim>\<open>stream_cb_t\<close> is a function pointer: \<open>None\<close> is \<^verbatim>\<open>NULL\<close>,
  \<open>Some c\<close> is the function with code address \<open>c\<close>.
\<close>

type_synonym ptr = nat
type_synonym stream_cb_t = nat
type_synonym va_list = "int list"

text \<open>
  The three event kinds of \<^verbatim>\<open>watcher_event_t\<close>. The header that gives them their bit
  values is not part of the sources at hand; \<^verbatim>\<open>add_watcher\<close> only ors them into a
  mask and tests the mask against zero, so a mask is the set of the kinds or-ed into it.
\<close>

datatype watcher_event_t = WATCHER_READ | WATCHER_WRITE | WATCHER_EXCEPT

text \<open>
  A \<^verbatim>\<open>FILE *\<close> obtained from \<^verbatim>\<open>fdopen\<close>: the descriptor it wraps and the mode it
  was opened with.
\<close>

datatype FILE = FILE (file_fd: int) (file_mode: string)

text \<open>\<^verbatim>\<open>struct private_stream_t\<close>, without the constant method table \<^verbatim>\<open>public\<close>.\<close>

record private_stream_t =
  fd :: int
  "file" :: "FILE option"
  read_cb :: "stream_cb_t option"
  read_data :: ptr
  write_cb :: "stream_cb_t option"
  write_data :: ptr

text \<open>
  What the stream does to the world outside the object is a sequence of calls, recorded
  in the order in which they are made. \<^verbatim>\<open>recv\<close> and \<^verbatim>\<open>send\<close> are only ever called with
  the flag \<^verbatim>\<open>MSG_DONTWAIT\<close>, \<^verbatim>\<open>lib->watcher->add\<close> only with the entry point
  \<^verbatim>\<open>watch\<close> and the object as its context; the calls are recorded without them.
\<close>

datatype call =
    Sys_read int ptr nat
  | Sys_recv int ptr nat
  | Sys_write int ptr nat
  | Sys_send int ptr nat
  | Watcher_remove int
  | Watcher_add int "watcher_event_t set"
  | Fdopen int string
  | Vfprintf FILE string va_list
  | Fclose FILE
  | Close int
  | Free

text \<open>
  The process around the object: the registrations that \<^verbatim>\<open>lib->watcher\<close> holds
  (descriptor and event mask), and the calls made so far.
\<close>

record env =
  watcher :: "(int \<times> watcher_event_t set) list"
  calls :: "call list"

text \<open>
  The three \<^verbatim>\<open>errno\<close> values the transfer functions compare against. Their numbers
  come from the platform's \<^verbatim>\<open>errno.h\<close>; on some platforms \<open>EAGAIN\<close> and
  \<open>EWOULDBLOCK\<close> are the same number, on others they differ.
\<close>

record errno_h =
  EAGAIN :: int
  EWOULDBLOCK :: int
  EINTR :: int

text \<open>
  The part of the C library \<^verbatim>\<open>vprint\<close> calls: whether \<^verbatim>\<open>fdopen\<close> succeeds on a
  descriptor and mode, and what \<^verbatim>\<open>vfprintf\<close> returns.
\<close>

record libc =
  fdopen :: "int \<Rightarrow> string \<Rightarrow> bool"
  vfprintf :: "FILE \<Rightarrow> string \<Rightarrow> va_list \<Rightarrow> int"

datatype error = Null_call

subsection \<open>The notification service\<close>

text \<open>
  Modelled from the spec: the notification service \<^verbatim>\<open>lib->watcher\<close> (its source,
  \<^verbatim>\<open>watcher.c\<close>, is not at hand). The specification gives it two entry points:
  \<^verbatim>\<open>register(descriptor, event_mask, dispatch_fn, context)\<close>, which "replaces any
  existing registration for that descriptor", and \<^verbatim>\<open>deregister(descriptor)\<close>, which
  "removes any registration for that descriptor; idempotent".
\<close>

definition watcher_remove ::
  "(int \<times> watcher_event_t set) list \<Rightarrow> int \<Rightarrow> (int \<times> watcher_event_t set) list" where
  "watcher_remove reg d = filter (\<lambda>x. fst x \<noteq> d) reg"

definition watcher_add ::
  "(int \<times> watcher_event_t set) list \<Rightarrow> int \<Rightarrow> watcher_event_t set
     \<Rightarrow> (int \<times> watcher_event_t set) list" where
  "watcher_add reg d events = (d, events) # filter (\<lambda>x. fst x \<noteq> d) reg"

text \<open>
  Modelled from the spec: what the notification service does with a dispatch that
  answers "drop it". The specification speaks of one read-readiness and one
  write-readiness registration per stream, and says that a callback that declines
  continuation "never keeps the descriptor registered for that event kind": the service
  takes the dispatched event kind out of the descriptor's mask, and forgets the
  descriptor when the mask becomes empty.
\<close>

fun watcher_drop ::
  "(int \<times> watcher_event_t set) list \<Rightarrow> int \<Rightarrow> watcher_event_t
     \<Rightarrow> (int \<times> watcher_event_t set) list" where
  "watcher_drop [] d k = []"
| "watcher_drop ((d', events) # reg) d k =
     (if d' = d then
        (if events - {k} = {} then watcher_drop reg d k
         else (d', events - {k}) # watcher_drop reg d k)
      else (d', events) # watcher_drop reg d k)"

text \<open>The event masks the service holds for a descriptor, one per registration.\<close>

definition registrations ::
  "(int \<times> watcher_event_t set) list \<Rightarrow> int \<Rightarrow> watcher_event_t set list" where
  "registrations reg d = map snd (filter (\<lambda>x. fst x = d) reg)"

subsection \<open>Transfer: \<^verbatim>\<open>read_\<close> and \<^verbatim>\<open>write_\<close>\<close>

text \<open>
  The operating system answers each attempt with a return value and the value
  \<^verbatim>\<open>errno\<close> holds after it; the list gives the answers of the attempts to come.
  The loop \<^verbatim>\<open>while (TRUE)\<close> takes one answer per round. It returns the value, the
  \<^verbatim>\<open>errno\<close> the caller finds, the object, the process and the answers not yet used;
  \<open>None\<close> says the loop is still running when the answers are used up.
  The methods \<^verbatim>\<open>read_\<close> and \<^verbatim>\<open>write_\<close> are \<open>read_stream\<close> and \<open>write_stream\<close>
  here, a name cannot end with an underscore.
\<close>

fun read_stream ::
  "errno_h \<Rightarrow> (int \<times> int) list \<Rightarrow> private_stream_t \<Rightarrow> env \<Rightarrow> ptr \<Rightarrow> nat \<Rightarrow> bool
     \<Rightarrow> ((int \<times> int) \<times> private_stream_t \<times> env \<times> (int \<times> int) list) option" where
  "read_stream h [] this e buf len block = None"
| "read_stream h ((r, en) # os) this e buf len block =
     (if block then
        (let e1 = e\<lparr>calls := calls e @ [Sys_read (fd this) buf len]\<rparr>;
             ret = r;
             errno = en
         in if ret = -1 \<and> errno = EINTR h then read_stream h os this e1 buf len block
            else Some ((ret, errno), this, e1, os))
      else
        (let e1 = e\<lparr>calls := calls e @ [Sys_recv (fd this) buf len]\<rparr>;
             ret = r;
             errno = (if ret = -1 \<and> en = EAGAIN h then EWOULDBLOCK h else en)
         in if ret = -1 \<and> errno = EINTR h then read_stream h os this e1 buf len block
            else Some ((ret, errno), this, e1, os)))"

fun write_stream ::
  "errno_h \<Rightarrow> (int \<times> int) list \<Rightarrow> private_stream_t \<Rightarrow> env \<Rightarrow> ptr \<Rightarrow> nat \<Rightarrow> bool
     \<Rightarrow> ((int \<times> int) \<times> private_stream_t \<times> env \<times> (int \<times> int) list) option" where
  "write_stream h [] this e buf len block = None"
| "write_stream h ((r, en) # os) this e buf len block =
     (if block then
        (let e1 = e\<lparr>calls := calls e @ [Sys_write (fd this) buf len]\<rparr>;
             ret = r;
             errno = en
         in if ret = -1 \<and> errno = EINTR h then write_stream h os this e1 buf len block
            else Some ((ret, errno), this, e1, os))
      else
        (let e1 = e\<lparr>calls := calls e @ [Sys_send (fd this) buf len]\<rparr>;
             ret = r;
             errno = (if ret = -1 \<and> en = EAGAIN h then EWOULDBLOCK h else en)
         in if ret = -1 \<and> errno = EINTR h then write_stream h os this e1 buf len block
            else Some ((ret, errno), this, e1, os)))"

subsection \<open>Readiness: the watcher registration and its callback\<close>

definition remove_watcher :: "private_stream_t \<Rightarrow> env \<Rightarrow> env" where
  "remove_watcher this e =
     (if read_cb this \<noteq> None \<or> write_cb this \<noteq> None then
        e\<lparr>watcher := watcher_remove (watcher e) (fd this),
          calls := calls e @ [Watcher_remove (fd this)]\<rparr>
      else e)"

text \<open>
  A callback is code outside the stream: \<open>cbs c data this e\<close> is what the function at
  address \<open>c\<close> does when called with the context \<open>data\<close> and the stream, the answer
  it returns and the object and the process as it leaves them. Calling through a
  \<^verbatim>\<open>NULL\<close> pointer is the error \<open>Null_call\<close>.
\<close>

definition watch ::
  "(stream_cb_t \<Rightarrow> ptr \<Rightarrow> private_stream_t \<Rightarrow> env \<Rightarrow> bool \<times> private_stream_t \<times> env)
     \<Rightarrow> private_stream_t \<Rightarrow> env \<Rightarrow> int \<Rightarrow> watcher_event_t
     \<Rightarrow> error + (bool \<times> private_stream_t \<times> env)" where
  "watch cbs this e fd' event =
     (case event of
        WATCHER_READ \<Rightarrow>
          (case read_cb this of
             None \<Rightarrow> Inl Null_call
           | Some cb \<Rightarrow>
               (case cbs cb (read_data this) this e of
                  (keep, this1, e1) \<Rightarrow>
                    Inr (keep, if \<not> keep then this1\<lparr>read_cb := None\<rparr> else this1, e1)))
      | WATCHER_WRITE \<Rightarrow>
          (case write_cb this of
             None \<Rightarrow> Inl Null_call
           | Some cb \<Rightarrow>
               (case cbs cb (write_data this) this e of
                  (keep, this1, e1) \<Rightarrow>
                    Inr (keep, if \<not> keep then this1\<lparr>write_cb := None\<rparr> else this1, e1)))
      | WATCHER_EXCEPT \<Rightarrow> Inr (False, this, e))"

definition add_watcher :: "private_stream_t \<Rightarrow> env \<Rightarrow> env" where
  "add_watcher this e =
     (let events = {};
          events = (if read_cb this \<noteq> None then insert WATCHER_READ events else events);
          events = (if write_cb this \<noteq> None then insert WATCHER_WRITE events else events)
      in if events \<noteq> {} then
           e\<lparr>watcher := watcher_add (watcher e) (fd this) events,
             calls := calls e @ [Watcher_add (fd this) events]\<rparr>
         else e)"

definition on_read ::
  "private_stream_t \<Rightarrow> env \<Rightarrow> stream_cb_t option \<Rightarrow> ptr \<Rightarrow> private_stream_t \<times> env" where
  "on_read this e cb data =
     (let e1 = remove_watcher this e;
          this1 = this\<lparr>read_cb := cb, read_data := data\<rparr>
      in (this1, add_watcher this1 e1))"

definition on_write ::
  "private_stream_t \<Rightarrow> env \<Rightarrow> stream_cb_t option \<Rightarrow> ptr \<Rightarrow> private_stream_t \<times> env" where
  "on_write this e cb data =
     (let e1 = remove_watcher this e;
          this1 = this\<lparr>write_cb := cb, write_data := data\<rparr>
      in (this1, add_watcher this1 e1))"

text \<open>
  Modelled from the spec: the dispatch of the notification service (not at hand). It
  "invokes \<^verbatim>\<open>dispatch_fn(context, descriptor, event_kind)\<close>" with the registered entry
  point \<^verbatim>\<open>watch\<close>, and the answer "means keep this registration (true) or drop it
  (false)".
\<close>

definition watcher_notify ::
  "(stream_cb_t \<Rightarrow> ptr \<Rightarrow> private_stream_t \<Rightarrow> env \<Rightarrow> bool \<times> private_stream_t \<times> env)
     \<Rightarrow> private_stream_t \<Rightarrow> env \<Rightarrow> watcher_event_t \<Rightarrow> error + (private_stream_t \<times> env)" where
  "watcher_notify cbs this e event =
     (case watch cbs this e (fd this) event of
        Inl x \<Rightarrow> Inl x
      | Inr (keep, this1, e1) \<Rightarrow>
          Inr (this1,
               if keep then e1
               else e1\<lparr>watcher := watcher_drop (watcher e1) (fd this) event\<rparr>))"

subsection \<open>Formatted output\<close>

definition vprint ::
  "libc \<Rightarrow> private_stream_t \<Rightarrow> env \<Rightarrow> string \<Rightarrow> va_list \<Rightarrow> int \<times> private_stream_t \<times> env" where
  "vprint c this e format ap =
     (case file this of
        None \<Rightarrow>
          (let e1 = e\<lparr>calls := calls e @ [Fdopen (fd this) ''w+'']\<rparr> in
           if fdopen c (fd this) ''w+'' then
             (let f = FILE (fd this) ''w+'';
                  this1 = this\<lparr>file := Some f\<rparr>
              in (vfprintf c f format ap, this1,
                  e1\<lparr>calls := calls e1 @ [Vfprintf f format ap]\<rparr>))
           else (-1, this, e1))
      | Some f \<Rightarrow>
          (vfprintf c f format ap, this, e\<lparr>calls := calls e @ [Vfprintf f format ap]\<rparr>))"

definition print ::
  "libc \<Rightarrow> private_stream_t \<Rightarrow> env \<Rightarrow> string \<Rightarrow> va_list \<Rightarrow> int \<times> private_stream_t \<times> env" where
  "print c this e format args =
     (let ap = args;
          (ret, this1, e1) = vprint c this e format ap
      in (ret, this1, e1))"

subsection \<open>Lifecycle\<close>

text \<open>\<^verbatim>\<open>destroy\<close> frees the object: what is left is the process.\<close>

definition destroy :: "private_stream_t \<Rightarrow> env \<Rightarrow> env" where
  "destroy this e =
     (let e1 = remove_watcher this e;
          e2 = (case file this of
                  Some f \<Rightarrow> e1\<lparr>calls := calls e1 @ [Fclose f]\<rparr>
                | None \<Rightarrow> e1\<lparr>calls := calls e1 @ [Close (fd this)]\<rparr>)
      in e2\<lparr>calls := calls e2 @ [Free]\<rparr>)"

definition stream_create_from_fd :: "int \<Rightarrow> private_stream_t" where
  "stream_create_from_fd fd' =
     \<lparr>fd = fd', file = None, read_cb = None, read_data = 0,
      write_cb = None, write_data = 0\<rparr>"

subsection \<open>The words of the specification\<close>

text \<open>
  The union of active interests, in the specification's words: "read-interest if a read
  callback is set, write-interest if a write callback is set".
\<close>

definition interest :: "private_stream_t \<Rightarrow> watcher_event_t set" where
  "interest this =
     (if read_cb this \<noteq> None then {WATCHER_READ} else {})
       \<union> (if write_cb this \<noteq> None then {WATCHER_WRITE} else {})"

text \<open>
  The service and the object agree: the descriptor is registered once, for exactly the
  union of active interests, or not at all when neither callback is set.
\<close>

definition consistent :: "private_stream_t \<Rightarrow> env \<Rightarrow> bool" where
  "consistent this e =
     (registrations (watcher e) (fd this) = (if interest this = {} then [] else [interest this]))"

text \<open>A sequence of \<^verbatim>\<open>on_read\<close> and \<^verbatim>\<open>on_write\<close> calls, made one after the other.\<close>

datatype registration_call =
    On_read "stream_cb_t option" ptr
  | On_write "stream_cb_t option" ptr

fun run_calls ::
  "private_stream_t \<Rightarrow> env \<Rightarrow> registration_call list \<Rightarrow> private_stream_t \<times> env" where
  "run_calls this e [] = (this, e)"
| "run_calls this e (On_read cb data # cs) =
     (case on_read this e cb data of (this1, e1) \<Rightarrow> run_calls this1 e1 cs)"
| "run_calls this e (On_write cb data # cs) =
     (case on_write this e cb data of (this1, e1) \<Rightarrow> run_calls this1 e1 cs)"

text \<open>
  Callbacks for the concrete cases below: the function at address \<open>7\<close> answers
  "keep", every other function answers "don't keep", and none of them touches the
  stream or the service.
\<close>

definition example_cbs ::
  "stream_cb_t \<Rightarrow> ptr \<Rightarrow> private_stream_t \<Rightarrow> env \<Rightarrow> bool \<times> private_stream_t \<times> env" where
  "example_cbs c data this e = (c = 7, this, e)"

text \<open>
  The calls that release a descriptor. In the specification's words, "closing the
  buffered wrapper closes the underlying descriptor too": \<^verbatim>\<open>close\<close> releases the
  descriptor it is given, \<^verbatim>\<open>fclose\<close> the descriptor its handle wraps.
\<close>

fun releases :: "int \<Rightarrow> call \<Rightarrow> bool" where
  "releases d (Close d') = (d' = d)"
| "releases d (Fclose f) = (file_fd f = d)"
| "releases d _ = False"

section \<open>Properties\<close>

subsection \<open>The notification service and the registration functions\<close>

lemma registrations_add: "registrations (watcher_add reg d events) d = [events]"
  by (simp add: registrations_def watcher_add_def filter_empty_conv)

lemma registrations_remove: "registrations (watcher_remove reg d) d = []"
  by (simp add: registrations_def watcher_remove_def filter_empty_conv)

lemma registrations_drop:
  "registrations (watcher_drop reg d k) d
     = filter (\<lambda>events. events \<noteq> {}) (map (\<lambda>events. events - {k}) (registrations reg d))"
  by (induction reg d k rule: watcher_drop.induct) (auto simp: registrations_def)

lemma watcher_drop_same:
  "\<forall>events \<in> set (registrations reg d). k \<notin> events \<and> events \<noteq> {} \<Longrightarrow> watcher_drop reg d k = reg"
  by (induction reg d k rule: watcher_drop.induct) (auto simp: registrations_def)

lemma add_watcher_eq:
  "add_watcher this e =
     (if interest this = {} then e
      else e\<lparr>watcher := watcher_add (watcher e) (fd this) (interest this),
             calls := calls e @ [Watcher_add (fd this) (interest this)]\<rparr>)"
  by (auto simp: add_watcher_def interest_def Let_def)

lemma remove_watcher_eq:
  "remove_watcher this e =
     (if interest this = {} then e
      else e\<lparr>watcher := watcher_remove (watcher e) (fd this),
             calls := calls e @ [Watcher_remove (fd this)]\<rparr>)"
  by (auto simp: remove_watcher_def interest_def)

lemma remove_watcher_registrations:
  "consistent this e \<Longrightarrow> registrations (watcher (remove_watcher this e)) (fd this) = []"
  by (simp add: remove_watcher_eq consistent_def registrations_remove)

lemma add_watcher_consistent:
  "registrations (watcher e) (fd this) = [] \<Longrightarrow> consistent this (add_watcher this e)"
  by (simp add: add_watcher_eq consistent_def registrations_add)

lemma on_read_eq:
  "on_read this e cb data =
     (this\<lparr>read_cb := cb, read_data := data\<rparr>,
      add_watcher (this\<lparr>read_cb := cb, read_data := data\<rparr>) (remove_watcher this e))"
  by (simp add: on_read_def Let_def)

lemma on_write_eq:
  "on_write this e cb data =
     (this\<lparr>write_cb := cb, write_data := data\<rparr>,
      add_watcher (this\<lparr>write_cb := cb, write_data := data\<rparr>) (remove_watcher this e))"
  by (simp add: on_write_def Let_def)

lemma on_read_consistent:
  assumes "consistent this e" and "on_read this e cb data = (this1, e1)"
  shows "consistent this1 e1"
proof -
  have "registrations (watcher (remove_watcher this e)) (fd (this\<lparr>read_cb := cb, read_data := data\<rparr>)) = []"
    using assms(1) by (simp add: remove_watcher_registrations)
  then have "consistent (this\<lparr>read_cb := cb, read_data := data\<rparr>)
     (add_watcher (this\<lparr>read_cb := cb, read_data := data\<rparr>) (remove_watcher this e))"
    by (rule add_watcher_consistent)
  with assms(2) show ?thesis by (auto simp: on_read_eq)
qed

lemma on_write_consistent:
  assumes "consistent this e" and "on_write this e cb data = (this1, e1)"
  shows "consistent this1 e1"
proof -
  have "registrations (watcher (remove_watcher this e)) (fd (this\<lparr>write_cb := cb, write_data := data\<rparr>)) = []"
    using assms(1) by (simp add: remove_watcher_registrations)
  then have "consistent (this\<lparr>write_cb := cb, write_data := data\<rparr>)
     (add_watcher (this\<lparr>write_cb := cb, write_data := data\<rparr>) (remove_watcher this e))"
    by (rule add_watcher_consistent)
  with assms(2) show ?thesis by (auto simp: on_write_eq)
qed

lemma created_consistent:
  "registrations reg d = [] \<Longrightarrow>
     consistent (stream_create_from_fd d) \<lparr>watcher = reg, calls = cs\<rparr>"
  by (simp add: consistent_def interest_def stream_create_from_fd_def)

lemma run_calls_consistent:
  "consistent this e \<Longrightarrow> run_calls this e cs = (this1, e1) \<Longrightarrow> consistent this1 e1"
proof (induction this e cs rule: run_calls.induct)
  case (1 this e)
  then show ?case by simp
next
  case (2 this e cb data cs)
  then show ?case
    by (auto split: prod.splits dest: on_read_consistent)
next
  case (3 this e cb data cs)
  then show ?case
    by (auto split: prod.splits dest: on_write_consistent)
qed


lemma run_calls_fd: "run_calls this e cs = (this1, e1) \<Longrightarrow> fd this1 = fd this"
  by (induction this e cs rule: run_calls.induct)
     (auto simp: on_read_eq on_write_eq split: prod.splits)

lemma consistent_at_most_one:
  "consistent this e \<Longrightarrow> length (registrations (watcher e) (fd this)) \<le> 1"
  by (simp add: consistent_def)

lemma registration_step:
  assumes "consistent this e" and "fd this1 = fd this"
  shows "calls (add_watcher this1 (remove_watcher this e)) =
           calls e
             @ (if read_cb this \<noteq> None \<or> write_cb this \<noteq> None
                then [Watcher_remove (fd this)] else [])
             @ (if interest this1 = {} then [] else [Watcher_add (fd this) (interest this1)])"
    and "registrations (watcher (add_watcher this1 (remove_watcher this e))) (fd this) =
           (if interest this1 = {} then [] else [interest this1])"
proof -
  show "calls (add_watcher this1 (remove_watcher this e)) =
           calls e
             @ (if read_cb this \<noteq> None \<or> write_cb this \<noteq> None
                then [Watcher_remove (fd this)] else [])
             @ (if interest this1 = {} then [] else [Watcher_add (fd this) (interest this1)])"
    using assms(2) by (simp add: add_watcher_eq) (simp add: remove_watcher_def)
  have "registrations (watcher (remove_watcher this e)) (fd this1) = []"
    using assms by (simp add: remove_watcher_registrations)
  then have "consistent this1 (add_watcher this1 (remove_watcher this e))"
    by (rule add_watcher_consistent)
  then show "registrations (watcher (add_watcher this1 (remove_watcher this e))) (fd this) =
           (if interest this1 = {} then [] else [interest this1])"
    using assms(2) by (simp add: consistent_def)
qed

subsection \<open>Registration\<close>

text \<open>
  C1. Let the service hold, for the stream's descriptor, one registration for the union
  of active interests, or none when no callback is set (as it does for a stream just
  created on a descriptor that is not registered). Then after every sequence of
  \<^verbatim>\<open>on_read\<close> and \<^verbatim>\<open>on_write\<close> calls the descriptor is unchanged and the service
  holds at most one registration for it, for exactly the union of active interests (none
  when neither callback is set). A single call removes the registration first, and only
  if a callback was set; nothing is registered after the removal. It stores the callback
  and the context of its direction, and then registers for the union of active interests,
  or makes no registration when that union is empty.
\<close>

theorem single_registration:
  assumes "consistent this e"
    and "run_calls this e cs = (this', e')"
    and "on_read this e cb data = (this_r, e_r)"
    and "on_write this e cb data = (this_w, e_w)"
  shows "fd this' = fd this
    \<and> length (registrations (watcher e') (fd this)) \<le> 1
    \<and> registrations (watcher e') (fd this) = (if interest this' = {} then [] else [interest this'])
    \<and> registrations (watcher (remove_watcher this e)) (fd this) = []
    \<and> this_r = this\<lparr>read_cb := cb, read_data := data\<rparr>
    \<and> calls e_r =
          calls e
            @ (if read_cb this \<noteq> None \<or> write_cb this \<noteq> None
               then [Watcher_remove (fd this)] else [])
            @ (if interest this_r = {} then [] else [Watcher_add (fd this) (interest this_r)])
    \<and> registrations (watcher e_r) (fd this) =
          (if interest this_r = {} then [] else [interest this_r])
    \<and> this_w = this\<lparr>write_cb := cb, write_data := data\<rparr>
    \<and> calls e_w =
          calls e
            @ (if read_cb this \<noteq> None \<or> write_cb this \<noteq> None
               then [Watcher_remove (fd this)] else [])
            @ (if interest this_w = {} then [] else [Watcher_add (fd this) (interest this_w)])
    \<and> registrations (watcher e_w) (fd this) =
          (if interest this_w = {} then [] else [interest this_w])"
proof -
  have same: "fd this' = fd this"
    using assms(2) by (rule run_calls_fd)
  have inv: "consistent this' e'"
    using assms(1,2) by (rule run_calls_consistent)
  have one: "length (registrations (watcher e') (fd this)) \<le> 1"
    using consistent_at_most_one [OF inv] same by simp
  have exact: "registrations (watcher e') (fd this) =
      (if interest this' = {} then [] else [interest this'])"
    using inv same by (simp add: consistent_def)
  have between: "registrations (watcher (remove_watcher this e)) (fd this) = []"
    using assms(1) by (rule remove_watcher_registrations)
  have r: "this_r = this\<lparr>read_cb := cb, read_data := data\<rparr>"
    and er: "e_r = add_watcher this_r (remove_watcher this e)"
    using assms(3) by (auto simp: on_read_eq)
  have w: "this_w = this\<lparr>write_cb := cb, write_data := data\<rparr>"
    and ew: "e_w = add_watcher this_w (remove_watcher this e)"
    using assms(4) by (auto simp: on_write_eq)
  have fr: "fd this_r = fd this" and fw: "fd this_w = fd this"
    by (simp_all add: r w)
  note sr = registration_step [OF assms(1) fr, folded er]
  note sw = registration_step [OF assms(1) fw, folded ew]
  show ?thesis
    using same one exact between r w sr sw by blast
qed


theorem single_registration_witness:
  "consistent (stream_create_from_fd 3) \<lparr>watcher = [(4, {WATCHER_READ})], calls = []\<rparr>
   \<and> run_calls (stream_create_from_fd 3) \<lparr>watcher = [(4, {WATCHER_READ})], calls = []\<rparr>
         [On_read (Some 7) 1, On_write (Some 8) 2, On_read None 0]
       = (\<lparr>fd = 3, file = None, read_cb = None, read_data = 0,
            write_cb = Some 8, write_data = 2\<rparr>,
          \<lparr>watcher = [(3, {WATCHER_WRITE}), (4, {WATCHER_READ})],
            calls = [Watcher_add 3 {WATCHER_READ},
                     Watcher_remove 3, Watcher_add 3 {WATCHER_WRITE, WATCHER_READ},
                     Watcher_remove 3, Watcher_add 3 {WATCHER_WRITE}]\<rparr>)
   \<and> length (registrations [(3, {WATCHER_WRITE}), (4, {WATCHER_READ})] 3) \<le> 1
   \<and> registrations [(3, {WATCHER_WRITE}), (4, {WATCHER_READ})] 3 = [{WATCHER_WRITE}]
   \<and> on_read (stream_create_from_fd 3) \<lparr>watcher = [(4, {WATCHER_READ})], calls = []\<rparr> (Some 7) 1
       = (\<lparr>fd = 3, file = None, read_cb = Some 7, read_data = 1,
            write_cb = None, write_data = 0\<rparr>,
          \<lparr>watcher = [(3, {WATCHER_READ}), (4, {WATCHER_READ})],
            calls = [Watcher_add 3 {WATCHER_READ}]\<rparr>)
   \<and> registrations [(3, {WATCHER_READ}), (4, {WATCHER_READ})] 3 = [{WATCHER_READ}]"
proof -
  let ?s0 = "stream_create_from_fd 3"
  let ?e0 = "\<lparr>watcher = [(4, {WATCHER_READ})], calls = []\<rparr>"
  have h1: "consistent ?s0 ?e0"
    by (simp add: consistent_def registrations_def interest_def stream_create_from_fd_def)
  have h2: "run_calls ?s0 ?e0 [On_read (Some 7) 1, On_write (Some 8) 2, On_read None 0]
       = (\<lparr>fd = 3, file = None, read_cb = None, read_data = 0,
            write_cb = Some 8, write_data = 2\<rparr>,
          \<lparr>watcher = [(3, {WATCHER_WRITE}), (4, {WATCHER_READ})],
            calls = [Watcher_add 3 {WATCHER_READ},
                     Watcher_remove 3, Watcher_add 3 {WATCHER_WRITE, WATCHER_READ},
                     Watcher_remove 3, Watcher_add 3 {WATCHER_WRITE}]\<rparr>)"
    by (simp add: on_read_def on_write_def remove_watcher_def add_watcher_def
          watcher_add_def watcher_remove_def stream_create_from_fd_def Let_def)
  have h3: "on_read ?s0 ?e0 (Some 7) 1
       = (\<lparr>fd = 3, file = None, read_cb = Some 7, read_data = 1,
            write_cb = None, write_data = 0\<rparr>,
          \<lparr>watcher = [(3, {WATCHER_READ}), (4, {WATCHER_READ})],
            calls = [Watcher_add 3 {WATCHER_READ}]\<rparr>)"
    by (simp add: on_read_def remove_watcher_def add_watcher_def
          watcher_add_def watcher_remove_def stream_create_from_fd_def Let_def)
  have h4: "on_write ?s0 ?e0 (Some 7) 1
       = (\<lparr>fd = 3, file = None, read_cb = None, read_data = 0,
            write_cb = Some 7, write_data = 1\<rparr>,
          \<lparr>watcher = [(3, {WATCHER_WRITE}), (4, {WATCHER_READ})],
            calls = [Watcher_add 3 {WATCHER_WRITE}]\<rparr>)"
    by (simp add: on_write_def remove_watcher_def add_watcher_def
          watcher_add_def watcher_remove_def stream_create_from_fd_def Let_def)
  show ?thesis
    using h1 h2 h3 single_registration [OF h1 h2 h3 h4]
    by (simp add: interest_def stream_create_from_fd_def)
qed

subsection \<open>Dispatch\<close>

text \<open>
  C8. A read-ready event calls the stored read callback with the stored read context
  and the stream, a write-ready event calls the stored write callback with the stored
  write context and the stream, and \<^verbatim>\<open>watch\<close> returns the callback's answer to the
  service (clearing the slot of a callback that answers "don't keep"). An exception
  event calls no callback: the result is the same whatever the callbacks do.
\<close>

theorem watch_dispatch:
  "(read_cb this = Some cb \<and> cbs cb (read_data this) this e = (keep, this1, e1) \<longrightarrow>
      watch cbs this e d WATCHER_READ =
        Inr (keep, if keep then this1 else this1\<lparr>read_cb := None\<rparr>, e1))
   \<and> (write_cb this = Some cb \<and> cbs cb (write_data this) this e = (keep, this1, e1) \<longrightarrow>
      watch cbs this e d WATCHER_WRITE =
        Inr (keep, if keep then this1 else this1\<lparr>write_cb := None\<rparr>, e1))
   \<and> watch cbs this e d WATCHER_EXCEPT = Inr (False, this, e)"
  by (simp add: watch_def)

theorem watch_dispatch_witness:
  "watch (\<lambda>c data this e. (data = 5, this\<lparr>read_data := c\<rparr>, e))
     \<lparr>fd = 3, file = None, read_cb = Some 7, read_data = 5, write_cb = Some 8, write_data = 6\<rparr>
     \<lparr>watcher = [(3, {WATCHER_READ, WATCHER_WRITE})], calls = []\<rparr> 3 WATCHER_READ
   = Inr (True,
      \<lparr>fd = 3, file = None, read_cb = Some 7, read_data = 7, write_cb = Some 8, write_data = 6\<rparr>,
      \<lparr>watcher = [(3, {WATCHER_READ, WATCHER_WRITE})], calls = []\<rparr>)
  \<and> watch (\<lambda>c data this e. (data = 5, this\<lparr>read_data := c\<rparr>, e))
     \<lparr>fd = 3, file = None, read_cb = Some 7, read_data = 5, write_cb = Some 8, write_data = 6\<rparr>
     \<lparr>watcher = [(3, {WATCHER_READ, WATCHER_WRITE})], calls = []\<rparr> 3 WATCHER_WRITE
   = Inr (False,
      \<lparr>fd = 3, file = None, read_cb = Some 7, read_data = 8, write_cb = None, write_data = 6\<rparr>,
      \<lparr>watcher = [(3, {WATCHER_READ, WATCHER_WRITE})], calls = []\<rparr>)"
  using watch_dispatch [of
     "\<lparr>fd = 3, file = None, read_cb = Some 7, read_data = 5, write_cb = Some 8, write_data = 6\<rparr>"
     7 "\<lambda>c data this e. (data = 5, this\<lparr>read_data := c\<rparr>, e)"
     "\<lparr>watcher = [(3, {WATCHER_READ, WATCHER_WRITE})], calls = []\<rparr>"
     True
     "\<lparr>fd = 3, file = None, read_cb = Some 7, read_data = 7, write_cb = Some 8, write_data = 6\<rparr>"
     "\<lparr>watcher = [(3, {WATCHER_READ, WATCHER_WRITE})], calls = []\<rparr>" 3]
   watch_dispatch [of
     "\<lparr>fd = 3, file = None, read_cb = Some 7, read_data = 5, write_cb = Some 8, write_data = 6\<rparr>"
     8 "\<lambda>c data this e. (data = 5, this\<lparr>read_data := c\<rparr>, e)"
     "\<lparr>watcher = [(3, {WATCHER_READ, WATCHER_WRITE})], calls = []\<rparr>"
     False
     "\<lparr>fd = 3, file = None, read_cb = Some 7, read_data = 8, write_cb = Some 8, write_data = 6\<rparr>"
     "\<lparr>watcher = [(3, {WATCHER_READ, WATCHER_WRITE})], calls = []\<rparr>" 3]
  by simp

lemma interest_clear_read: "interest (this\<lparr>read_cb := None\<rparr>) = interest this - {WATCHER_READ}"
  by (auto simp: interest_def)

lemma interest_clear_write: "interest (this\<lparr>write_cb := None\<rparr>) = interest this - {WATCHER_WRITE}"
  by (auto simp: interest_def)

lemma drop_consistent:
  assumes "consistent this e" and "interest this1 = interest this - {k}" and "fd this1 = fd this"
  shows "consistent this1 (e\<lparr>watcher := watcher_drop (watcher e) (fd this) k\<rparr>)"
  using assms by (simp add: consistent_def registrations_drop)

lemma drop_not_registered:
  "\<forall>events \<in> set (registrations (watcher_drop reg d k) d). k \<notin> events"
  by (auto simp: registrations_drop)

text \<open>
  C2. When the callback a read-ready (write-ready) event is dispatched to answers
  "don't keep", \<^verbatim>\<open>watch\<close> clears the read (write) callback slot and hands the answer to
  the service, which then takes that event kind out of the descriptor's registration:
  no registration of the descriptor contains the dropped kind any more. If the callback
  left the service and the object in agreement, the registration that results is the
  union of the remaining callbacks: exactly the write event after a declined read
  callback while a write callback is set (and symmetrically), none when no callback is left.
\<close>

theorem declined_callback_dropped:
  assumes "consistent this1 e1" and "fd this1 = fd this"
  shows "(read_cb this = Some cb \<and> cbs cb (read_data this) this e = (False, this1, e1) \<longrightarrow>
            watcher_notify cbs this e WATCHER_READ =
              Inr (this1\<lparr>read_cb := None\<rparr>,
                   e1\<lparr>watcher := watcher_drop (watcher e1) (fd this) WATCHER_READ\<rparr>)
          \<and> (\<forall>events \<in> set (registrations (watcher_drop (watcher e1) (fd this) WATCHER_READ) (fd this)).
                WATCHER_READ \<notin> events)
          \<and> registrations (watcher_drop (watcher e1) (fd this) WATCHER_READ) (fd this) =
              (if write_cb this1 = None then [] else [{WATCHER_WRITE}]))
    \<and> (write_cb this = Some cb \<and> cbs cb (write_data this) this e = (False, this1, e1) \<longrightarrow>
            watcher_notify cbs this e WATCHER_WRITE =
              Inr (this1\<lparr>write_cb := None\<rparr>,
                   e1\<lparr>watcher := watcher_drop (watcher e1) (fd this) WATCHER_WRITE\<rparr>)
          \<and> (\<forall>events \<in> set (registrations (watcher_drop (watcher e1) (fd this) WATCHER_WRITE) (fd this)).
                WATCHER_WRITE \<notin> events)
          \<and> registrations (watcher_drop (watcher e1) (fd this) WATCHER_WRITE) (fd this) =
              (if read_cb this1 = None then [] else [{WATCHER_READ}]))"
proof -
  have r: "consistent (this1\<lparr>read_cb := None\<rparr>)
             (e1\<lparr>watcher := watcher_drop (watcher e1) (fd this1) WATCHER_READ\<rparr>)"
    using assms(1) by (rule drop_consistent) (simp_all add: interest_clear_read)
  have w: "consistent (this1\<lparr>write_cb := None\<rparr>)
             (e1\<lparr>watcher := watcher_drop (watcher e1) (fd this1) WATCHER_WRITE\<rparr>)"
    using assms(1) by (rule drop_consistent) (simp_all add: interest_clear_write)
  have r': "registrations (watcher_drop (watcher e1) (fd this) WATCHER_READ) (fd this) =
              (if write_cb this1 = None then [] else [{WATCHER_WRITE}])"
    using r assms(2) by (simp add: consistent_def interest_def)
  have w': "registrations (watcher_drop (watcher e1) (fd this) WATCHER_WRITE) (fd this) =
              (if read_cb this1 = None then [] else [{WATCHER_READ}])"
    using w assms(2) by (simp add: consistent_def interest_def)
  have nr: "read_cb this = Some cb \<and> cbs cb (read_data this) this e = (False, this1, e1) \<longrightarrow>
      watcher_notify cbs this e WATCHER_READ =
              Inr (this1\<lparr>read_cb := None\<rparr>,
                   e1\<lparr>watcher := watcher_drop (watcher e1) (fd this) WATCHER_READ\<rparr>)"
    by (simp add: watcher_notify_def watch_def)
  have nw: "write_cb this = Some cb \<and> cbs cb (write_data this) this e = (False, this1, e1) \<longrightarrow>
      watcher_notify cbs this e WATCHER_WRITE =
              Inr (this1\<lparr>write_cb := None\<rparr>,
                   e1\<lparr>watcher := watcher_drop (watcher e1) (fd this) WATCHER_WRITE\<rparr>)"
    by (simp add: watcher_notify_def watch_def)
  show ?thesis
    using r' w' nr nw drop_not_registered [of "watcher e1" "fd this"] by blast
qed

theorem declined_callback_dropped_witness:
  "consistent
     \<lparr>fd = 3, file = None, read_cb = Some 5, read_data = 1, write_cb = Some 7, write_data = 2\<rparr>
     \<lparr>watcher = [(3, {WATCHER_READ, WATCHER_WRITE})], calls = []\<rparr>
   \<and> example_cbs 5 1
       \<lparr>fd = 3, file = None, read_cb = Some 5, read_data = 1, write_cb = Some 7, write_data = 2\<rparr>
       \<lparr>watcher = [(3, {WATCHER_READ, WATCHER_WRITE})], calls = []\<rparr>
     = (False,
       \<lparr>fd = 3, file = None, read_cb = Some 5, read_data = 1, write_cb = Some 7, write_data = 2\<rparr>,
       \<lparr>watcher = [(3, {WATCHER_READ, WATCHER_WRITE})], calls = []\<rparr>)
   \<and> watcher_notify example_cbs
       \<lparr>fd = 3, file = None, read_cb = Some 5, read_data = 1, write_cb = Some 7, write_data = 2\<rparr>
       \<lparr>watcher = [(3, {WATCHER_READ, WATCHER_WRITE})], calls = []\<rparr> WATCHER_READ
     = Inr (\<lparr>fd = 3, file = None, read_cb = None, read_data = 1, write_cb = Some 7, write_data = 2\<rparr>,
            \<lparr>watcher = [(3, {WATCHER_WRITE})], calls = []\<rparr>)
   \<and> registrations [(3, {WATCHER_WRITE})] 3 = [{WATCHER_WRITE}]"
proof -
  let ?s0 = "\<lparr>fd = 3, file = None, read_cb = Some 5, read_data = 1,
              write_cb = Some 7, write_data = 2\<rparr>"
  let ?e0 = "\<lparr>watcher = [(3, {WATCHER_READ, WATCHER_WRITE})], calls = []\<rparr>"
  have h1: "consistent ?s0 ?e0"
    by (auto simp: consistent_def registrations_def interest_def)
  have h2: "fd ?s0 = fd ?s0"
    by simp
  have h3: "example_cbs 5 1 ?s0 ?e0 = (False, ?s0, ?e0)"
    by (simp add: example_cbs_def)
  have d: "watcher_drop [(3, {WATCHER_READ, WATCHER_WRITE})] 3 WATCHER_READ = [(3, {WATCHER_WRITE})]"
    by auto
  show ?thesis
    using h1 h3 d declined_callback_dropped [OF h1 h2, of 5 example_cbs ?e0]
    by (simp add: registrations_def)
qed

text \<open>
  C9, as stated, fails: an exception event answers "don't keep", and the service takes
  the exception kind out of a registration that never held it, so a stream registered for
  reading stays registered.
\<close>

theorem exception_event_counterexample:
  "watcher_notify example_cbs
     \<lparr>fd = 3, file = None, read_cb = Some 7, read_data = 1, write_cb = None, write_data = 0\<rparr>
     \<lparr>watcher = [(3, {WATCHER_READ})], calls = []\<rparr> WATCHER_EXCEPT
   = Inr (\<lparr>fd = 3, file = None, read_cb = Some 7, read_data = 1, write_cb = None, write_data = 0\<rparr>,
          \<lparr>watcher = [(3, {WATCHER_READ})], calls = []\<rparr>)
   \<and> registrations [(3, {WATCHER_READ})] 3 \<noteq> []"
  by (simp add: watcher_notify_def watch_def registrations_def)

text \<open>
  C9, amended. For every stream with at least one callback set and a registration that
  agrees with its callbacks, dispatching an exception event returns "don't keep" to the
  service and leaves both callback and context slots unchanged; the service drops only
  the exception kind, which is not registered, so the descriptor stays registered for
  the union of the callbacks that are set.
\<close>

theorem exception_event_keeps_registration:
  assumes "read_cb this \<noteq> None \<or> write_cb this \<noteq> None" and "consistent this e"
  shows "watch cbs this e d WATCHER_EXCEPT = Inr (False, this, e)
    \<and> watcher_notify cbs this e WATCHER_EXCEPT = Inr (this, e)
    \<and> registrations (watcher e) (fd this) = [interest this]
    \<and> interest this \<noteq> {}"
proof -
  have ne: "interest this \<noteq> {}"
    using assms(1) by (auto simp: interest_def)
  have reg: "registrations (watcher e) (fd this) = [interest this]"
    using assms(2) ne by (simp add: consistent_def)
  have "WATCHER_EXCEPT \<notin> interest this"
    by (simp add: interest_def)
  then have "watcher_drop (watcher e) (fd this) WATCHER_EXCEPT = watcher e"
    using reg ne by (intro watcher_drop_same) simp
  then have "watcher_notify cbs this e WATCHER_EXCEPT = Inr (this, e)"
    by (simp add: watcher_notify_def watch_def)
  moreover have "watch cbs this e d WATCHER_EXCEPT = Inr (False, this, e)"
    by (simp add: watch_def)
  ultimately show ?thesis
    using reg ne by simp
qed

theorem exception_event_keeps_registration_witness:
  "consistent
     \<lparr>fd = 3, file = None, read_cb = Some 7, read_data = 1, write_cb = None, write_data = 0\<rparr>
     \<lparr>watcher = [(3, {WATCHER_READ})], calls = []\<rparr>
   \<and> watch example_cbs
       \<lparr>fd = 3, file = None, read_cb = Some 7, read_data = 1, write_cb = None, write_data = 0\<rparr>
       \<lparr>watcher = [(3, {WATCHER_READ})], calls = []\<rparr> 3 WATCHER_EXCEPT
     = Inr (False,
         \<lparr>fd = 3, file = None, read_cb = Some 7, read_data = 1, write_cb = None, write_data = 0\<rparr>,
         \<lparr>watcher = [(3, {WATCHER_READ})], calls = []\<rparr>)
   \<and> registrations [(3, {WATCHER_READ})] 3 = [{WATCHER_READ}]"
proof -
  let ?s0 = "\<lparr>fd = 3, file = None, read_cb = Some 7, read_data = 1,
              write_cb = None, write_data = 0\<rparr>"
  let ?e0 = "\<lparr>watcher = [(3, {WATCHER_READ})], calls = []\<rparr>"
  have h1: "read_cb ?s0 \<noteq> None \<or> write_cb ?s0 \<noteq> None"
    by simp
  have h2: "consistent ?s0 ?e0"
    by (simp add: consistent_def registrations_def interest_def)
  show ?thesis
    using h2 exception_event_keeps_registration [OF h1 h2, of example_cbs 3]
    by (simp add: interest_def)
qed

subsection \<open>Transfer\<close>

lemma read_stream_retry_block:
  "read_stream h (replicate n (-1, EINTR h) @ os) this e buf len True =
     read_stream h os this
       (e\<lparr>calls := calls e @ replicate n (Sys_read (fd this) buf len)\<rparr>) buf len True"
  by (induction n arbitrary: e) simp_all

lemma read_stream_retry_nonblock:
  "EINTR h \<noteq> EAGAIN h \<Longrightarrow>
   read_stream h (replicate n (-1, EINTR h) @ os) this e buf len False =
     read_stream h os this
       (e\<lparr>calls := calls e @ replicate n (Sys_recv (fd this) buf len)\<rparr>) buf len False"
  by (induction n arbitrary: e) simp_all

lemma read_stream_retry:
  "EINTR h \<noteq> EAGAIN h \<Longrightarrow>
   read_stream h (replicate n (-1, EINTR h) @ os) this e buf len block =
     read_stream h os this
       (e\<lparr>calls := calls e @ replicate n
           (if block then Sys_read (fd this) buf len else Sys_recv (fd this) buf len)\<rparr>)
       buf len block"
  by (cases block) (simp_all add: read_stream_retry_block read_stream_retry_nonblock)

lemma write_stream_retry_block:
  "write_stream h (replicate n (-1, EINTR h) @ os) this e buf len True =
     write_stream h os this
       (e\<lparr>calls := calls e @ replicate n (Sys_write (fd this) buf len)\<rparr>) buf len True"
  by (induction n arbitrary: e) simp_all

lemma write_stream_retry_nonblock:
  "EINTR h \<noteq> EAGAIN h \<Longrightarrow>
   write_stream h (replicate n (-1, EINTR h) @ os) this e buf len False =
     write_stream h os this
       (e\<lparr>calls := calls e @ replicate n (Sys_send (fd this) buf len)\<rparr>) buf len False"
  by (induction n arbitrary: e) simp_all

lemma write_stream_retry:
  "EINTR h \<noteq> EAGAIN h \<Longrightarrow>
   write_stream h (replicate n (-1, EINTR h) @ os) this e buf len block =
     write_stream h os this
       (e\<lparr>calls := calls e @ replicate n
           (if block then Sys_write (fd this) buf len else Sys_send (fd this) buf len)\<rparr>)
       buf len block"
  by (cases block) (simp_all add: write_stream_retry_block write_stream_retry_nonblock)

lemma read_stream_not_interrupted:
  "read_stream h os this e buf len block = Some ((r, en), x) \<Longrightarrow> \<not> (r = -1 \<and> en = EINTR h)"
  by (induction h os this e buf len block rule: read_stream.induct)
     (auto simp: Let_def split: if_splits)

lemma write_stream_not_interrupted:
  "write_stream h os this e buf len block = Some ((r, en), x) \<Longrightarrow> \<not> (r = -1 \<and> en = EINTR h)"
  by (induction h os this e buf len block rule: write_stream.induct)
     (auto simp: Let_def split: if_splits)

lemma read_stream_this:
  "read_stream h os this e buf len block = Some (r, this1, e1, os1) \<Longrightarrow> this1 = this"
  by (induction h os this e buf len block rule: read_stream.induct)
     (auto simp: Let_def split: if_splits)

lemma write_stream_this:
  "write_stream h os this e buf len block = Some (r, this1, e1, os1) \<Longrightarrow> this1 = this"
  by (induction h os this e buf len block rule: write_stream.induct)
     (auto simp: Let_def split: if_splits)

lemma read_stream_first:
  "\<not> (r = -1 \<and> en = EINTR h) \<Longrightarrow> EINTR h \<noteq> EWOULDBLOCK h \<Longrightarrow>
   read_stream h ((r, en) # os) this e buf len block =
     Some ((r, if \<not> block \<and> r = -1 \<and> en = EAGAIN h then EWOULDBLOCK h else en), this,
           e\<lparr>calls := calls e @
               [if block then Sys_read (fd this) buf len else Sys_recv (fd this) buf len]\<rparr>, os)"
  by (auto simp: Let_def)

lemma write_stream_first:
  "\<not> (r = -1 \<and> en = EINTR h) \<Longrightarrow> EINTR h \<noteq> EWOULDBLOCK h \<Longrightarrow>
   write_stream h ((r, en) # os) this e buf len block =
     Some ((r, if \<not> block \<and> r = -1 \<and> en = EAGAIN h then EWOULDBLOCK h else en), this,
           e\<lparr>calls := calls e @
               [if block then Sys_write (fd this) buf len else Sys_send (fd this) buf len]\<rparr>, os)"
  by (auto simp: Let_def)

text \<open>
  C4. On a platform whose \<open>EINTR\<close> differs from \<open>EAGAIN\<close> and \<open>EWOULDBLOCK\<close>, let
  the first \<open>n\<close> attempts of a \<^verbatim>\<open>read_\<close> or \<^verbatim>\<open>write_\<close> call, blocking or not, fail with
  \<open>EINTR\<close> and the next attempt end otherwise. Then the call makes the same system call
  \<open>n + 1\<close> times and returns the return value of the last attempt as it is, a byte
  count (zero too) or \<open>-1\<close>, with the \<^verbatim>\<open>errno\<close> of that attempt (on the non-blocking
  path \<open>EAGAIN\<close> reads \<open>EWOULDBLOCK\<close>). Whatever the system answers, no call returns
  \<open>-1\<close> with \<^verbatim>\<open>errno\<close> \<open>EINTR\<close>.
\<close>

theorem interrupted_transfer_retried:
  assumes "EINTR h \<noteq> EAGAIN h" and "EINTR h \<noteq> EWOULDBLOCK h"
    and "\<not> (r = -1 \<and> en = EINTR h)"
  shows "read_stream h (replicate n (-1, EINTR h) @ (r, en) # os) this e buf len block =
           Some ((r, if \<not> block \<and> r = -1 \<and> en = EAGAIN h then EWOULDBLOCK h else en), this,
                 e\<lparr>calls := calls e @ replicate (Suc n)
                     (if block then Sys_read (fd this) buf len else Sys_recv (fd this) buf len)\<rparr>,
                 os)
    \<and> write_stream h (replicate n (-1, EINTR h) @ (r, en) # os) this e buf len block =
           Some ((r, if \<not> block \<and> r = -1 \<and> en = EAGAIN h then EWOULDBLOCK h else en), this,
                 e\<lparr>calls := calls e @ replicate (Suc n)
                     (if block then Sys_write (fd this) buf len else Sys_send (fd this) buf len)\<rparr>,
                 os)
    \<and> (\<forall>answers r' en' x.
          read_stream h answers this e buf len block = Some ((r', en'), x) \<longrightarrow>
            \<not> (r' = -1 \<and> en' = EINTR h))
    \<and> (\<forall>answers r' en' x.
          write_stream h answers this e buf len block = Some ((r', en'), x) \<longrightarrow>
            \<not> (r' = -1 \<and> en' = EINTR h))"
proof -
  have a: "read_stream h (replicate n (-1, EINTR h) @ (r, en) # os) this e buf len block =
           Some ((r, if \<not> block \<and> r = -1 \<and> en = EAGAIN h then EWOULDBLOCK h else en), this,
                 e\<lparr>calls := calls e @ replicate (Suc n)
                     (if block then Sys_read (fd this) buf len else Sys_recv (fd this) buf len)\<rparr>,
                 os)"
    unfolding read_stream_retry [OF assms(1)] read_stream_first [OF assms(3,2)]
    by (simp add: replicate_append_same)
  have b: "write_stream h (replicate n (-1, EINTR h) @ (r, en) # os) this e buf len block =
           Some ((r, if \<not> block \<and> r = -1 \<and> en = EAGAIN h then EWOULDBLOCK h else en), this,
                 e\<lparr>calls := calls e @ replicate (Suc n)
                     (if block then Sys_write (fd this) buf len else Sys_send (fd this) buf len)\<rparr>,
                 os)"
    unfolding write_stream_retry [OF assms(1)] write_stream_first [OF assms(3,2)]
    by (simp add: replicate_append_same)
  show ?thesis
    using a b read_stream_not_interrupted write_stream_not_interrupted by blast
qed


theorem interrupted_transfer_retried_witness:
  "EINTR \<lparr>EAGAIN = 11, EWOULDBLOCK = 35, EINTR = 4\<rparr> \<noteq> EAGAIN \<lparr>EAGAIN = 11, EWOULDBLOCK = 35, EINTR = 4\<rparr>
   \<and> EINTR \<lparr>EAGAIN = 11, EWOULDBLOCK = 35, EINTR = 4\<rparr> \<noteq> EWOULDBLOCK \<lparr>EAGAIN = 11, EWOULDBLOCK = 35, EINTR = 4\<rparr>
   \<and> read_stream \<lparr>EAGAIN = 11, EWOULDBLOCK = 35, EINTR = 4\<rparr> [(-1, 4), (-1, 4), (-1, 104), (8, 0)]
         (stream_create_from_fd 3) \<lparr>watcher = [], calls = []\<rparr> 9 16 True
       = Some ((-1, 104), stream_create_from_fd 3,
               \<lparr>watcher = [], calls = [Sys_read 3 9 16, Sys_read 3 9 16, Sys_read 3 9 16]\<rparr>,
               [(8, 0)])
   \<and> write_stream \<lparr>EAGAIN = 11, EWOULDBLOCK = 35, EINTR = 4\<rparr> [(-1, 4), (-1, 4), (-1, 104), (8, 0)]
         (stream_create_from_fd 3) \<lparr>watcher = [], calls = []\<rparr> 9 16 True
       = Some ((-1, 104), stream_create_from_fd 3,
               \<lparr>watcher = [], calls = [Sys_write 3 9 16, Sys_write 3 9 16, Sys_write 3 9 16]\<rparr>,
               [(8, 0)])"
proof -
  let ?h = "\<lparr>EAGAIN = 11, EWOULDBLOCK = 35, EINTR = 4\<rparr>"
  have h1: "EINTR ?h \<noteq> EAGAIN ?h"
    by simp
  have h2: "EINTR ?h \<noteq> EWOULDBLOCK ?h"
    by simp
  have h3: "\<not> ((-1::int) = -1 \<and> (104::int) = EINTR ?h)"
    by simp
  show ?thesis
    using interrupted_transfer_retried [OF h1 h2 h3, of "Suc (Suc 0)" "[(8, 0)]"
        "stream_create_from_fd 3" "\<lparr>watcher = [], calls = []\<rparr>" 9 16 True]
    by (simp add: stream_create_from_fd_def)
qed

text \<open>
  C3. On a platform whose \<open>EINTR\<close> differs from \<open>EAGAIN\<close> and \<open>EWOULDBLOCK\<close>, a
  non-blocking \<^verbatim>\<open>read_\<close> or \<^verbatim>\<open>write_\<close> whose \<^verbatim>\<open>recv\<close> or \<^verbatim>\<open>send\<close> fails with
  \<open>EAGAIN\<close> or with \<open>EWOULDBLOCK\<close> (after any number of interrupted attempts) returns
  \<open>-1\<close> with \<^verbatim>\<open>errno\<close> \<open>EWOULDBLOCK\<close> in both cases. A blocking call returns \<open>-1\<close>
  with the \<^verbatim>\<open>errno\<close> the system call left, \<open>EAGAIN\<close> as \<open>EAGAIN\<close>.
\<close>

theorem would_block_unified:
  assumes "EINTR h \<noteq> EAGAIN h" and "EINTR h \<noteq> EWOULDBLOCK h"
  shows "(en = EAGAIN h \<or> en = EWOULDBLOCK h \<longrightarrow>
            read_stream h (replicate n (-1, EINTR h) @ (-1, en) # os) this e buf len False =
              Some ((-1, EWOULDBLOCK h), this,
                    e\<lparr>calls := calls e @ replicate (Suc n) (Sys_recv (fd this) buf len)\<rparr>, os)
          \<and> write_stream h (replicate n (-1, EINTR h) @ (-1, en) # os) this e buf len False =
              Some ((-1, EWOULDBLOCK h), this,
                    e\<lparr>calls := calls e @ replicate (Suc n) (Sys_send (fd this) buf len)\<rparr>, os))
    \<and> (en \<noteq> EINTR h \<longrightarrow>
            read_stream h (replicate n (-1, EINTR h) @ (-1, en) # os) this e buf len True =
              Some ((-1, en), this,
                    e\<lparr>calls := calls e @ replicate (Suc n) (Sys_read (fd this) buf len)\<rparr>, os)
          \<and> write_stream h (replicate n (-1, EINTR h) @ (-1, en) # os) this e buf len True =
              Some ((-1, en), this,
                    e\<lparr>calls := calls e @ replicate (Suc n) (Sys_write (fd this) buf len)\<rparr>, os))"
proof -
  have rn: "en = EAGAIN h \<or> en = EWOULDBLOCK h \<Longrightarrow>
      read_stream h (replicate n (-1, EINTR h) @ (-1, en) # os) this e buf len False =
        Some ((-1, EWOULDBLOCK h), this,
              e\<lparr>calls := calls e @ replicate (Suc n) (Sys_recv (fd this) buf len)\<rparr>, os)"
    unfolding read_stream_retry_nonblock [OF assms(1)]
    using assms(2) by (auto simp: Let_def replicate_append_same)
  have wn: "en = EAGAIN h \<or> en = EWOULDBLOCK h \<Longrightarrow>
      write_stream h (replicate n (-1, EINTR h) @ (-1, en) # os) this e buf len False =
        Some ((-1, EWOULDBLOCK h), this,
              e\<lparr>calls := calls e @ replicate (Suc n) (Sys_send (fd this) buf len)\<rparr>, os)"
    unfolding write_stream_retry_nonblock [OF assms(1)]
    using assms(2) by (auto simp: Let_def replicate_append_same)
  have rb: "en \<noteq> EINTR h \<Longrightarrow>
      read_stream h (replicate n (-1, EINTR h) @ (-1, en) # os) this e buf len True =
        Some ((-1, en), this,
              e\<lparr>calls := calls e @ replicate (Suc n) (Sys_read (fd this) buf len)\<rparr>, os)"
    unfolding read_stream_retry_block
    by (auto simp: Let_def replicate_append_same)
  have wb: "en \<noteq> EINTR h \<Longrightarrow>
      write_stream h (replicate n (-1, EINTR h) @ (-1, en) # os) this e buf len True =
        Some ((-1, en), this,
              e\<lparr>calls := calls e @ replicate (Suc n) (Sys_write (fd this) buf len)\<rparr>, os)"
    unfolding write_stream_retry_block
    by (auto simp: Let_def replicate_append_same)
  show ?thesis
    using rn wn rb wb by blast
qed

theorem would_block_unified_witness:
  "EINTR \<lparr>EAGAIN = 11, EWOULDBLOCK = 35, EINTR = 4\<rparr> \<noteq> EAGAIN \<lparr>EAGAIN = 11, EWOULDBLOCK = 35, EINTR = 4\<rparr>
   \<and> EINTR \<lparr>EAGAIN = 11, EWOULDBLOCK = 35, EINTR = 4\<rparr> \<noteq> EWOULDBLOCK \<lparr>EAGAIN = 11, EWOULDBLOCK = 35, EINTR = 4\<rparr>
   \<and> read_stream \<lparr>EAGAIN = 11, EWOULDBLOCK = 35, EINTR = 4\<rparr> [(-1, 4), (-1, 11), (8, 0)]
         (stream_create_from_fd 3) \<lparr>watcher = [], calls = []\<rparr> 9 16 False
       = Some ((-1, 35), stream_create_from_fd 3,
               \<lparr>watcher = [], calls = [Sys_recv 3 9 16, Sys_recv 3 9 16]\<rparr>, [(8, 0)])
   \<and> write_stream \<lparr>EAGAIN = 11, EWOULDBLOCK = 35, EINTR = 4\<rparr> [(-1, 4), (-1, 11), (8, 0)]
         (stream_create_from_fd 3) \<lparr>watcher = [], calls = []\<rparr> 9 16 True
       = Some ((-1, 11), stream_create_from_fd 3,
               \<lparr>watcher = [], calls = [Sys_write 3 9 16, Sys_write 3 9 16]\<rparr>, [(8, 0)])"
proof -
  let ?h = "\<lparr>EAGAIN = 11, EWOULDBLOCK = 35, EINTR = 4\<rparr>"
  have h1: "EINTR ?h \<noteq> EAGAIN ?h"
    by simp
  have h2: "EINTR ?h \<noteq> EWOULDBLOCK ?h"
    by simp
  show ?thesis
    using would_block_unified [OF h1 h2, of 11 "Suc 0" "[(8, 0)]"
        "stream_create_from_fd 3" "\<lparr>watcher = [], calls = []\<rparr>" 9 16]
    by (simp add: stream_create_from_fd_def)
qed

text \<open>
  C10. \<^verbatim>\<open>on_read\<close> leaves the write callback, the write context, the descriptor and
  the buffered handle as they are; \<^verbatim>\<open>on_write\<close> leaves the read callback, the read
  context, the descriptor and the buffered handle as they are; a \<^verbatim>\<open>read_\<close> or
  \<^verbatim>\<open>write_\<close> call that returns leaves every field of the object as it is.
\<close>

theorem frame_of_registration_and_transfer:
  "write_cb (fst (on_read this e cb data)) = write_cb this
   \<and> write_data (fst (on_read this e cb data)) = write_data this
   \<and> fd (fst (on_read this e cb data)) = fd this
   \<and> file (fst (on_read this e cb data)) = file this
   \<and> read_cb (fst (on_write this e cb data)) = read_cb this
   \<and> read_data (fst (on_write this e cb data)) = read_data this
   \<and> fd (fst (on_write this e cb data)) = fd this
   \<and> file (fst (on_write this e cb data)) = file this
   \<and> (\<forall>r this1 e1 os1.
         read_stream h os this e buf len block = Some (r, this1, e1, os1) \<longrightarrow> this1 = this)
   \<and> (\<forall>r this1 e1 os1.
         write_stream h os this e buf len block = Some (r, this1, e1, os1) \<longrightarrow> this1 = this)"
  using read_stream_this [of h os this e buf len block]
    write_stream_this [of h os this e buf len block]
  by (simp add: on_read_eq on_write_eq)

theorem frame_of_registration_and_transfer_witness:
  "read_stream \<lparr>EAGAIN = 11, EWOULDBLOCK = 35, EINTR = 4\<rparr> [(-1, 4), (8, 0)]
       \<lparr>fd = 3, file = None, read_cb = Some 5, read_data = 1, write_cb = Some 7, write_data = 2\<rparr>
       \<lparr>watcher = [(3, {WATCHER_READ, WATCHER_WRITE})], calls = []\<rparr> 9 16 True
     = Some ((8, 0),
         \<lparr>fd = 3, file = None, read_cb = Some 5, read_data = 1, write_cb = Some 7, write_data = 2\<rparr>,
         \<lparr>watcher = [(3, {WATCHER_READ, WATCHER_WRITE})],
           calls = [Sys_read 3 9 16, Sys_read 3 9 16]\<rparr>, [])
   \<and> write_cb (fst (on_read
         \<lparr>fd = 3, file = None, read_cb = Some 5, read_data = 1, write_cb = Some 7, write_data = 2\<rparr>
         \<lparr>watcher = [(3, {WATCHER_READ, WATCHER_WRITE})], calls = []\<rparr> None 0)) = Some 7
   \<and> read_cb (fst (on_write
         \<lparr>fd = 3, file = None, read_cb = Some 5, read_data = 1, write_cb = Some 7, write_data = 2\<rparr>
         \<lparr>watcher = [(3, {WATCHER_READ, WATCHER_WRITE})], calls = []\<rparr> None 0)) = Some 5"
proof -
  let ?s0 = "\<lparr>fd = 3, file = None, read_cb = Some 5, read_data = 1,
              write_cb = Some 7, write_data = 2\<rparr>"
  let ?e0 = "\<lparr>watcher = [(3, {WATCHER_READ, WATCHER_WRITE})], calls = []\<rparr>"
  have h1: "read_stream \<lparr>EAGAIN = 11, EWOULDBLOCK = 35, EINTR = 4\<rparr> [(-1, 4), (8, 0)] ?s0 ?e0 9 16 True
     = Some ((8, 0), ?s0,
         \<lparr>watcher = [(3, {WATCHER_READ, WATCHER_WRITE})],
           calls = [Sys_read 3 9 16, Sys_read 3 9 16]\<rparr>, [])"
    by simp
  show ?thesis
    using h1 frame_of_registration_and_transfer [of ?s0 ?e0 None 0
        "\<lparr>EAGAIN = 11, EWOULDBLOCK = 35, EINTR = 4\<rparr>" "[(-1, 4), (8, 0)]" 9 16 True]
    by simp
qed

subsection \<open>Removing a callback\<close>

text \<open>
  C5. Let the registration agree with the callbacks. \<^verbatim>\<open>on_read\<close> with a null callback
  while no write callback is set makes no call to register: it deregisters the
  descriptor (if a read callback was set; otherwise nothing was registered) and leaves no
  registration. While a write callback is set it deregisters and registers again, for
  exactly the write event. The same holds for \<^verbatim>\<open>on_write\<close> with a null callback, with
  respect to the read callback.
\<close>

theorem null_callback_deregisters:
  assumes "consistent this e"
  shows "(write_cb this = None \<longrightarrow>
            snd (on_read this e None data) =
              (if read_cb this = None then e
               else e\<lparr>watcher := watcher_remove (watcher e) (fd this),
                      calls := calls e @ [Watcher_remove (fd this)]\<rparr>)
          \<and> registrations (watcher (snd (on_read this e None data))) (fd this) = [])
    \<and> (write_cb this \<noteq> None \<longrightarrow>
            calls (snd (on_read this e None data)) =
              calls e @ [Watcher_remove (fd this), Watcher_add (fd this) {WATCHER_WRITE}]
          \<and> registrations (watcher (snd (on_read this e None data))) (fd this) = [{WATCHER_WRITE}])
    \<and> (read_cb this = None \<longrightarrow>
            snd (on_write this e None data) =
              (if write_cb this = None then e
               else e\<lparr>watcher := watcher_remove (watcher e) (fd this),
                      calls := calls e @ [Watcher_remove (fd this)]\<rparr>)
          \<and> registrations (watcher (snd (on_write this e None data))) (fd this) = [])
    \<and> (read_cb this \<noteq> None \<longrightarrow>
            calls (snd (on_write this e None data)) =
              calls e @ [Watcher_remove (fd this), Watcher_add (fd this) {WATCHER_READ}]
          \<and> registrations (watcher (snd (on_write this e None data))) (fd this) = [{WATCHER_READ}])"
proof -
  have none: "registrations (watcher e) (fd this) = []" if "interest this = {}"
    using assms that by (simp add: consistent_def)
  have r0: "write_cb this = None \<Longrightarrow>
      snd (on_read this e None data) =
              (if read_cb this = None then e
               else e\<lparr>watcher := watcher_remove (watcher e) (fd this),
                      calls := calls e @ [Watcher_remove (fd this)]\<rparr>)"
    by (simp add: on_read_eq add_watcher_def remove_watcher_def Let_def)
  have r1: "write_cb this = None \<Longrightarrow>
      registrations (watcher (snd (on_read this e None data))) (fd this) = []"
    using none by (simp add: r0 registrations_remove interest_def)
  have r2: "write_cb this \<noteq> None \<Longrightarrow>
      calls (snd (on_read this e None data)) =
              calls e @ [Watcher_remove (fd this), Watcher_add (fd this) {WATCHER_WRITE}]
      \<and> registrations (watcher (snd (on_read this e None data))) (fd this) = [{WATCHER_WRITE}]"
    by (simp add: on_read_eq add_watcher_def remove_watcher_def registrations_add Let_def)
  have w0: "read_cb this = None \<Longrightarrow>
      snd (on_write this e None data) =
              (if write_cb this = None then e
               else e\<lparr>watcher := watcher_remove (watcher e) (fd this),
                      calls := calls e @ [Watcher_remove (fd this)]\<rparr>)"
    by (simp add: on_write_eq add_watcher_def remove_watcher_def Let_def)
  have w1: "read_cb this = None \<Longrightarrow>
      registrations (watcher (snd (on_write this e None data))) (fd this) = []"
    using none by (simp add: w0 registrations_remove interest_def)
  have w2: "read_cb this \<noteq> None \<Longrightarrow>
      calls (snd (on_write this e None data)) =
              calls e @ [Watcher_remove (fd this), Watcher_add (fd this) {WATCHER_READ}]
      \<and> registrations (watcher (snd (on_write this e None data))) (fd this) = [{WATCHER_READ}]"
    by (simp add: on_write_eq add_watcher_def remove_watcher_def registrations_add Let_def)
  show ?thesis
    using r0 r1 r2 w0 w1 w2 by blast
qed

theorem null_callback_deregisters_witness:
  "consistent
     \<lparr>fd = 3, file = None, read_cb = Some 5, read_data = 1, write_cb = Some 7, write_data = 2\<rparr>
     \<lparr>watcher = [(3, {WATCHER_READ, WATCHER_WRITE})], calls = []\<rparr>
   \<and> calls (snd (on_read
       \<lparr>fd = 3, file = None, read_cb = Some 5, read_data = 1, write_cb = Some 7, write_data = 2\<rparr>
       \<lparr>watcher = [(3, {WATCHER_READ, WATCHER_WRITE})], calls = []\<rparr> None 0))
     = [Watcher_remove 3, Watcher_add 3 {WATCHER_WRITE}]
   \<and> registrations (watcher (snd (on_read
       \<lparr>fd = 3, file = None, read_cb = Some 5, read_data = 1, write_cb = Some 7, write_data = 2\<rparr>
       \<lparr>watcher = [(3, {WATCHER_READ, WATCHER_WRITE})], calls = []\<rparr> None 0))) 3
     = [{WATCHER_WRITE}]
   \<and> consistent
     \<lparr>fd = 3, file = None, read_cb = Some 5, read_data = 1, write_cb = None, write_data = 0\<rparr>
     \<lparr>watcher = [(3, {WATCHER_READ})], calls = []\<rparr>
   \<and> snd (on_read
       \<lparr>fd = 3, file = None, read_cb = Some 5, read_data = 1, write_cb = None, write_data = 0\<rparr>
       \<lparr>watcher = [(3, {WATCHER_READ})], calls = []\<rparr> None 0)
     = \<lparr>watcher = [], calls = [Watcher_remove 3]\<rparr>"
proof -
  let ?s0 = "\<lparr>fd = 3, file = None, read_cb = Some 5, read_data = 1,
              write_cb = Some 7, write_data = 2\<rparr>"
  let ?e0 = "\<lparr>watcher = [(3, {WATCHER_READ, WATCHER_WRITE})], calls = []\<rparr>"
  let ?s1 = "\<lparr>fd = 3, file = None, read_cb = Some 5, read_data = 1,
              write_cb = None, write_data = 0\<rparr>"
  let ?e1 = "\<lparr>watcher = [(3, {WATCHER_READ})], calls = []\<rparr>"
  have h0: "consistent ?s0 ?e0"
    by (auto simp: consistent_def registrations_def interest_def)
  have h1: "consistent ?s1 ?e1"
    by (simp add: consistent_def registrations_def interest_def)
  show ?thesis
    using h0 h1 null_callback_deregisters [OF h0, of 0] null_callback_deregisters [OF h1, of 0]
    by (simp add: watcher_remove_def)
qed


subsection \<open>Formatted output and destruction\<close>

lemma vprint_cases:
  "file this = None \<Longrightarrow> \<not> fdopen c (fd this) ''w+'' \<Longrightarrow>
     vprint c this e format ap = (-1, this, e\<lparr>calls := calls e @ [Fdopen (fd this) ''w+'']\<rparr>)"
  "file this = None \<Longrightarrow> fdopen c (fd this) ''w+'' \<Longrightarrow>
     vprint c this e format ap =
       (vfprintf c (FILE (fd this) ''w+'') format ap,
        this\<lparr>file := Some (FILE (fd this) ''w+'')\<rparr>,
        e\<lparr>calls := calls e @ [Fdopen (fd this) ''w+'',
                              Vfprintf (FILE (fd this) ''w+'') format ap]\<rparr>)"
  "file this = Some f \<Longrightarrow>
     vprint c this e format ap =
       (vfprintf c f format ap, this, e\<lparr>calls := calls e @ [Vfprintf f format ap]\<rparr>)"
  by (simp_all add: vprint_def Let_def)

lemma destroy_calls:
  "calls (destroy this e) =
     calls e
       @ (if read_cb this \<noteq> None \<or> write_cb this \<noteq> None then [Watcher_remove (fd this)] else [])
       @ [case file this of Some f \<Rightarrow> Fclose f | None \<Rightarrow> Close (fd this)]
       @ [Free]"
  by (simp add: destroy_def remove_watcher_def Let_def split: option.splits)

lemma destroy_watcher: "watcher (destroy this e) = watcher (remove_watcher this e)"
  by (simp add: destroy_def Let_def split: option.splits)

lemma read_stream_any_env:
  "map_option (\<lambda>(r, this1, e1, os1). (r, this1, os1)) (read_stream h os this e buf len block) =
   map_option (\<lambda>(r, this1, e1, os1). (r, this1, os1)) (read_stream h os this e' buf len block)"
proof (induction os arbitrary: e e')
  case Nil
  show ?case by simp
next
  case (Cons a os)
  obtain r en where a: "a = (r, en)"
    by (cases a)
  show ?case
    using Cons.IH [of "e\<lparr>calls := calls e @ [Sys_read (fd this) buf len]\<rparr>"
                      "e'\<lparr>calls := calls e' @ [Sys_read (fd this) buf len]\<rparr>"]
      Cons.IH [of "e\<lparr>calls := calls e @ [Sys_recv (fd this) buf len]\<rparr>"
                  "e'\<lparr>calls := calls e' @ [Sys_recv (fd this) buf len]\<rparr>"]
    by (cases block) (simp_all add: a Let_def)
qed

lemma write_stream_any_env:
  "map_option (\<lambda>(r, this1, e1, os1). (r, this1, os1)) (write_stream h os this e buf len block) =
   map_option (\<lambda>(r, this1, e1, os1). (r, this1, os1)) (write_stream h os this e' buf len block)"
proof (induction os arbitrary: e e')
  case Nil
  show ?case by simp
next
  case (Cons a os)
  obtain r en where a: "a = (r, en)"
    by (cases a)
  show ?case
    using Cons.IH [of "e\<lparr>calls := calls e @ [Sys_write (fd this) buf len]\<rparr>"
                      "e'\<lparr>calls := calls e' @ [Sys_write (fd this) buf len]\<rparr>"]
      Cons.IH [of "e\<lparr>calls := calls e @ [Sys_send (fd this) buf len]\<rparr>"
                  "e'\<lparr>calls := calls e' @ [Sys_send (fd this) buf len]\<rparr>"]
    by (cases block) (simp_all add: a Let_def)
qed

text \<open>
  C6. \<^verbatim>\<open>destroy\<close>, on every stream, first calls the service's remove, and only if a
  callback is set; a stream whose registration agrees with its callbacks is left with no
  registration, and with no callback set the service is not touched. Then it makes
  exactly one release: \<^verbatim>\<open>fclose\<close> on the buffered handle if there is one, \<^verbatim>\<open>close\<close>
  on the raw descriptor otherwise, never both; then it frees the object. With a handle
  that wraps the stream's descriptor, the descriptor is released exactly once. After a
  \<^verbatim>\<open>vprint\<close> whose \<^verbatim>\<open>fdopen\<close> succeeded, \<^verbatim>\<open>destroy\<close> closes the handle and makes no
  \<^verbatim>\<open>close\<close> call.
\<close>

theorem destroy_releases_once:
  "calls (destroy this e) =
     calls e
       @ (if read_cb this \<noteq> None \<or> write_cb this \<noteq> None then [Watcher_remove (fd this)] else [])
       @ [case file this of Some f \<Rightarrow> Fclose f | None \<Rightarrow> Close (fd this)]
       @ [Free]
   \<and> (consistent this e \<longrightarrow> registrations (watcher (destroy this e)) (fd this) = [])
   \<and> (read_cb this = None \<and> write_cb this = None \<longrightarrow> watcher (destroy this e) = watcher e)
   \<and> (file this \<noteq> None \<longrightarrow>
        Close (fd this) \<notin> set (drop (length (calls e)) (calls (destroy this e))))
   \<and> (file this = None \<longrightarrow>
        (\<forall>f. Fclose f \<notin> set (drop (length (calls e)) (calls (destroy this e)))))
   \<and> ((\<forall>f. file this = Some f \<longrightarrow> file_fd f = fd this) \<longrightarrow>
        length (filter (releases (fd this)) (drop (length (calls e)) (calls (destroy this e)))) = 1)
   \<and> (file this = None \<and> fdopen c (fd this) ''w+'' \<longrightarrow>
        drop (length (calls (snd (snd (vprint c this e format ap)))))
          (calls (destroy (fst (snd (vprint c this e format ap)))
                          (snd (snd (vprint c this e format ap))))) =
          (if read_cb this \<noteq> None \<or> write_cb this \<noteq> None then [Watcher_remove (fd this)] else [])
            @ [Fclose (FILE (fd this) ''w+''), Free])"
proof -
  have a: "consistent this e \<Longrightarrow> registrations (watcher (destroy this e)) (fd this) = []"
    by (simp add: destroy_watcher remove_watcher_registrations)
  have b: "read_cb this = None \<and> write_cb this = None \<Longrightarrow> watcher (destroy this e) = watcher e"
    by (simp add: destroy_watcher remove_watcher_def)
  have c: "file this \<noteq> None \<Longrightarrow>
      Close (fd this) \<notin> set (drop (length (calls e)) (calls (destroy this e)))"
    by (auto simp: destroy_calls)
  have d: "file this = None \<Longrightarrow>
      (\<forall>f. Fclose f \<notin> set (drop (length (calls e)) (calls (destroy this e))))"
    by (auto simp: destroy_calls)
  have r: "(\<forall>f. file this = Some f \<longrightarrow> file_fd f = fd this) \<Longrightarrow>
      length (filter (releases (fd this)) (drop (length (calls e)) (calls (destroy this e)))) = 1"
    by (auto simp: destroy_calls split: option.splits)
  have v: "file this = None \<and> fdopen c (fd this) ''w+'' \<Longrightarrow>
        drop (length (calls (snd (snd (vprint c this e format ap)))))
          (calls (destroy (fst (snd (vprint c this e format ap)))
                          (snd (snd (vprint c this e format ap))))) =
          (if read_cb this \<noteq> None \<or> write_cb this \<noteq> None then [Watcher_remove (fd this)] else [])
            @ [Fclose (FILE (fd this) ''w+''), Free]"
    by (simp add: vprint_cases(2) destroy_calls)
  show ?thesis
    using destroy_calls [of this e] a b c d r v by blast
qed

text \<open>
  C7. With no handle yet, \<^verbatim>\<open>vprint\<close> calls \<^verbatim>\<open>fdopen\<close> on the raw descriptor with mode
  \<^verbatim>\<open>"w+"\<close>. If that fails, it returns \<open>-1\<close>, the object is unchanged (no handle),
  and \<^verbatim>\<open>read_\<close> and \<^verbatim>\<open>write_\<close> behave on it as before. If it succeeds, the handle is
  stored and the result of \<^verbatim>\<open>vfprintf\<close> on it is returned. With a handle, \<^verbatim>\<open>vprint\<close>
  makes no \<^verbatim>\<open>fdopen\<close> call and returns the result of \<^verbatim>\<open>vfprintf\<close> on the stored
  handle. \<^verbatim>\<open>print\<close> does what \<^verbatim>\<open>vprint\<close> does.
\<close>

theorem lazy_text_handle:
  "(file this = None \<and> \<not> fdopen c (fd this) ''w+'' \<longrightarrow>
      vprint c this e format ap =
        (-1, this, e\<lparr>calls := calls e @ [Fdopen (fd this) ''w+'']\<rparr>)
      \<and> map_option (\<lambda>(r, this1, e1, os1). (r, this1, os1))
          (read_stream h os (fst (snd (vprint c this e format ap)))
             (snd (snd (vprint c this e format ap))) buf len block) =
        map_option (\<lambda>(r, this1, e1, os1). (r, this1, os1))
          (read_stream h os this e buf len block)
      \<and> map_option (\<lambda>(r, this1, e1, os1). (r, this1, os1))
          (write_stream h os (fst (snd (vprint c this e format ap)))
             (snd (snd (vprint c this e format ap))) buf len block) =
        map_option (\<lambda>(r, this1, e1, os1). (r, this1, os1))
          (write_stream h os this e buf len block))
   \<and> (file this = None \<and> fdopen c (fd this) ''w+'' \<longrightarrow>
        vprint c this e format ap =
          (vfprintf c (FILE (fd this) ''w+'') format ap,
           this\<lparr>file := Some (FILE (fd this) ''w+'')\<rparr>,
           e\<lparr>calls := calls e @ [Fdopen (fd this) ''w+'',
                                 Vfprintf (FILE (fd this) ''w+'') format ap]\<rparr>))
   \<and> (file this = Some f \<longrightarrow>
        vprint c this e format ap =
          (vfprintf c f format ap, this, e\<lparr>calls := calls e @ [Vfprintf f format ap]\<rparr>))
   \<and> print c this e format ap = vprint c this e format ap"
proof -
  have p: "print c this e format ap = vprint c this e format ap"
    by (simp add: print_def Let_def split: prod.splits)
  have f: "file this = None \<and> \<not> fdopen c (fd this) ''w+'' \<Longrightarrow>
      vprint c this e format ap =
        (-1, this, e\<lparr>calls := calls e @ [Fdopen (fd this) ''w+'']\<rparr>)"
    by (simp add: vprint_cases(1))
  have fr: "file this = None \<and> \<not> fdopen c (fd this) ''w+'' \<Longrightarrow>
      map_option (\<lambda>(r, this1, e1, os1). (r, this1, os1))
          (read_stream h os (fst (snd (vprint c this e format ap)))
             (snd (snd (vprint c this e format ap))) buf len block) =
        map_option (\<lambda>(r, this1, e1, os1). (r, this1, os1))
          (read_stream h os this e buf len block)"
    by (simp add: f) (rule read_stream_any_env)
  have fw: "file this = None \<and> \<not> fdopen c (fd this) ''w+'' \<Longrightarrow>
      map_option (\<lambda>(r, this1, e1, os1). (r, this1, os1))
          (write_stream h os (fst (snd (vprint c this e format ap)))
             (snd (snd (vprint c this e format ap))) buf len block) =
        map_option (\<lambda>(r, this1, e1, os1). (r, this1, os1))
          (write_stream h os this e buf len block)"
    by (simp add: f) (rule write_stream_any_env)
  show ?thesis
    using p f fr fw vprint_cases(2) [of this c e format ap] vprint_cases(3) [of this f c e format ap]
    by blast
qed


theorem destroy_releases_once_witness:
  "consistent
     \<lparr>fd = 3, file = Some (FILE 3 ''w+''), read_cb = Some 5, read_data = 1,
       write_cb = None, write_data = 0\<rparr>
     \<lparr>watcher = [(3, {WATCHER_READ})], calls = []\<rparr>
   \<and> calls (destroy
       \<lparr>fd = 3, file = Some (FILE 3 ''w+''), read_cb = Some 5, read_data = 1,
         write_cb = None, write_data = 0\<rparr>
       \<lparr>watcher = [(3, {WATCHER_READ})], calls = []\<rparr>)
     = [Watcher_remove 3, Fclose (FILE 3 ''w+''), Free]
   \<and> registrations (watcher (destroy
       \<lparr>fd = 3, file = Some (FILE 3 ''w+''), read_cb = Some 5, read_data = 1,
         write_cb = None, write_data = 0\<rparr>
       \<lparr>watcher = [(3, {WATCHER_READ})], calls = []\<rparr>)) 3 = []
   \<and> length (filter (releases 3) [Watcher_remove 3, Fclose (FILE 3 ''w+''), Free]) = 1
   \<and> calls (destroy (stream_create_from_fd 3) \<lparr>watcher = [], calls = []\<rparr>) = [Close 3, Free]"
proof -
  let ?s0 = "\<lparr>fd = 3, file = Some (FILE 3 ''w+''), read_cb = Some 5, read_data = 1,
              write_cb = None, write_data = 0\<rparr>"
  let ?e0 = "\<lparr>watcher = [(3, {WATCHER_READ})], calls = []\<rparr>"
  let ?c = "\<lparr>fdopen = \<lambda>d m. True, vfprintf = \<lambda>f format ap. int (length format)\<rparr>"
  have h: "consistent ?s0 ?e0"
    by (simp add: consistent_def registrations_def interest_def)
  show ?thesis
    using h destroy_releases_once [of ?s0 ?e0 ?c "''%d''" "[1]"]
      destroy_releases_once [of "stream_create_from_fd 3" "\<lparr>watcher = [], calls = []\<rparr>" ?c
        "''%d''" "[1]"]
    by (simp add: stream_create_from_fd_def)
qed

theorem lazy_text_handle_witness:
  "vprint \<lparr>fdopen = \<lambda>d m. False, vfprintf = \<lambda>f format ap. int (length format)\<rparr>
       (stream_create_from_fd 3) \<lparr>watcher = [], calls = []\<rparr> ''%d'' [1]
     = (-1, stream_create_from_fd 3, \<lparr>watcher = [], calls = [Fdopen 3 ''w+'']\<rparr>)
   \<and> vprint \<lparr>fdopen = \<lambda>d m. True, vfprintf = \<lambda>f format ap. int (length format)\<rparr>
       (stream_create_from_fd 3) \<lparr>watcher = [], calls = []\<rparr> ''%d'' [1]
     = (2, \<lparr>fd = 3, file = Some (FILE 3 ''w+''), read_cb = None, read_data = 0,
             write_cb = None, write_data = 0\<rparr>,
        \<lparr>watcher = [],
          calls = [Fdopen 3 ''w+'', Vfprintf (FILE 3 ''w+'') ''%d'' [1]]\<rparr>)
   \<and> vprint \<lparr>fdopen = \<lambda>d m. False, vfprintf = \<lambda>f format ap. int (length format)\<rparr>
       \<lparr>fd = 3, file = Some (FILE 3 ''w+''), read_cb = None, read_data = 0,
         write_cb = None, write_data = 0\<rparr>
       \<lparr>watcher = [], calls = []\<rparr> ''%d'' [1]
     = (2, \<lparr>fd = 3, file = Some (FILE 3 ''w+''), read_cb = None, read_data = 0,
             write_cb = None, write_data = 0\<rparr>,
        \<lparr>watcher = [], calls = [Vfprintf (FILE 3 ''w+'') ''%d'' [1]]\<rparr>)"
proof -
  let ?h = "\<lparr>EAGAIN = 11, EWOULDBLOCK = 35, EINTR = 4\<rparr>"
  let ?e0 = "\<lparr>watcher = [], calls = []\<rparr>"
  let ?no = "\<lparr>fdopen = \<lambda>d m. False, vfprintf = \<lambda>f format ap. int (length format)\<rparr>"
  let ?yes = "\<lparr>fdopen = \<lambda>d m. True, vfprintf = \<lambda>f format ap. int (length format)\<rparr>"
  let ?s1 = "\<lparr>fd = 3, file = Some (FILE 3 ''w+''), read_cb = None, read_data = 0,
              write_cb = None, write_data = 0\<rparr>"
  show ?thesis
    using lazy_text_handle [of "stream_create_from_fd 3" ?no ?e0 "''%d''" "[1]" ?h "[]" 0 0 True
        "FILE 3 ''w+''"]
      lazy_text_handle [of "stream_create_from_fd 3" ?yes ?e0 "''%d''" "[1]" ?h "[]" 0 0 True
        "FILE 3 ''w+''"]
      lazy_text_handle [of ?s1 ?no ?e0 "''%d''" "[1]" ?h "[]" 0 0 True "FILE 3 ''w+''"]
    by (simp add: stream_create_from_fd_def)
qed

end
